theory Spec2Isabelle
  imports Main
begin

section \<open>The astroid process entry: \<open>src/astroid.cc\<close>\<close>

text \<open>
  A shallow embedding of \<open>Astroid::main\<close>, \<open>Astroid::on_quit\<close>,
  \<open>Astroid::open_new_window\<close>, \<open>Astroid::on_signal_activate\<close>,
  \<open>Astroid::on_mailto_activate\<close> and \<open>Astroid::send_mailto\<close>.

  The functions of the source talk to the toolkit, to the configuration, to the log and
  to the subsystems through calls whose bodies are in other files. Each such call is
  recorded, in program order, as an \<open>effect\<close> in the \<open>trace\<close> of the application
  object; what the outside world answers (was the application already registered by
  another process, does a file exist, which events does the main loop deliver) is read
  from an \<open>env\<close> record. Exceptions and \<open>exit\<close> are values.
\<close>

subsection \<open>Strings\<close>

datatype exn =
    Out_of_range
  | Registration_error
  | Option_error
  | Bad_path string

text \<open>
  \<open>ustring::substr (i, n)\<close>: the characters from position \<open>i\<close>, at most \<open>n\<close> of them;
  \<open>std::out_of_range\<close> when \<open>i\<close> is beyond the end.
\<close>

definition substr :: "string \<Rightarrow> nat \<Rightarrow> nat \<Rightarrow> exn + string" where
  "substr s i n = (if length s < i then Inl Out_of_range else Inr (take n (drop i s)))"

text \<open>
  \<open>ustring::find\<close> for a one-character needle: the first position of the character,
  \<open>None\<close> for \<open>ustring::npos\<close>.
\<close>

fun find_chr :: "string \<Rightarrow> char \<Rightarrow> nat option" where
  "find_chr [] c = None"
| "find_chr (x # xs) c = (if x = c then Some 0 else map_option Suc (find_chr xs c))"

text \<open>
  \<open>Glib::uri_parse_scheme\<close> belongs to GLib, not to this repository. It is the
  library's \<open>g_uri_parse_scheme\<close>: the text must begin with an ASCII letter, followed by
  letters, digits, \<open>+\<close>, \<open>-\<close> or \<open>.\<close> up to a colon; the result is the text before
  that colon (the colon is not part of it). Where the C function gives \<open>NULL\<close> the C++
  binding gives the empty string.
\<close>

definition g_ascii_isalpha :: "char \<Rightarrow> bool" where
  "g_ascii_isalpha c =
     (let n = (of_char c :: nat) in (65 \<le> n \<and> n \<le> 90) \<or> (97 \<le> n \<and> n \<le> 122))"

definition g_ascii_isdigit :: "char \<Rightarrow> bool" where
  "g_ascii_isdigit c = (let n = (of_char c :: nat) in 48 \<le> n \<and> n \<le> 57)"

definition scheme_char :: "char \<Rightarrow> bool" where
  "scheme_char c =
     (g_ascii_isalpha c \<or> g_ascii_isdigit c \<or> c = CHR ''+'' \<or> c = CHR ''-'' \<or> c = CHR ''.'')"

fun scan_scheme :: "string \<Rightarrow> nat option" where
  "scan_scheme [] = None"
| "scan_scheme (c # cs) =
     (if c = CHR '':'' then Some 0
      else if scheme_char c then map_option Suc (scan_scheme cs)
      else None)"

definition uri_parse_scheme :: "string \<Rightarrow> string" where
  "uri_parse_scheme uri =
     (case uri of
        [] \<Rightarrow> []
      | c # _ \<Rightarrow>
          if \<not> g_ascii_isalpha c then []
          else (case scan_scheme uri of None \<Rightarrow> [] | Some n \<Rightarrow> take n uri))"

text \<open>
  The address that \<open>send_mailto\<close> hands to the compose view (lines 414 to 424, and the
  \<open>else\<close> branch of line 431).
\<close>

definition mailto_to :: "string \<Rightarrow> exn + string" where
  "mailto_to url =
     (let scheme = uri_parse_scheme url in
      if 0 < length scheme then
        (case substr url (length scheme) (length url - length scheme) of
           Inl x \<Rightarrow> Inl x
         | Inr url' \<Rightarrow>
             let pos = (case find_chr url' CHR ''?'' of None \<Rightarrow> length url' | Some p \<Rightarrow> p)
             in substr url' 0 pos)
      else Inr url)"

subsection \<open>Data\<close>

text \<open>The log levels; \<open>No_level\<close> is a line written to the log with no level named.\<close>

datatype level = Debug | Info | Warn | Err | No_level

text \<open>
  The modes this file creates: \<open>SavedSearches (mw)\<close>, \<open>ThreadIndex (mw, query, name)\<close>
  and \<open>EditMessage (mw, to)\<close>. \<open>invincible\<close> is the field of \<open>Mode\<close> that
  \<open>open_new_window\<close> assigns.
\<close>

datatype mode_kind =
    SavedSearchesMode
  | ThreadIndex string string
  | EditMessage string

record mode =
  kind :: mode_kind
  invincible :: bool

text \<open>
  Modelled from the spec: the value of \<open>invincible\<close> in a mode that was just
  constructed; \<open>Mode\<close> is declared in another file. A mode is exempt from ordinary
  close only when it is flagged, so a new mode is not.
\<close>

definition new_mode :: "mode_kind \<Rightarrow> mode" where
  "new_mode k = \<lparr>kind = k, invincible = False\<rparr>"

text \<open>The subsystems set up by \<open>main\<close>, named after what the source calls.\<close>

datatype subsystem =
    Date
  | Utils
  | Db
  | Keybindings
  | SavedSearches
  | AccountManager
  | PluginManager
  | ActionManager
  | Poll

text \<open>
  The ways \<open>main\<close> constructs \<open>Config\<close>: \<open>Config (path)\<close>, \<open>Config (true)\<close>,
  \<open>Config ()\<close>, and \<open>Config (false, true)\<close> for \<open>--new-config\<close>.
\<close>

datatype config_source =
    Config_file string
  | Config_test
  | Config_default
  | Config_new

text \<open>
  Every call that leaves the file. A window is named by its number (the count of windows
  created before it); an \<open>Init\<close> carries the constructor's arguments.
\<close>

datatype effect =
    Cout string
  | Cout_desc
  | Log level string
  | Logf_open string bool
  | Logf_close
  | Log_add_logf
  | Log_del_logf
  | Write_default_config string
  | App_create
  | App_register
  | App_activate_action string string
  | App_activate
  | Connect_activate
  | Add_action string
  | New_Config config_source
  | Init subsystem "bool list"
  | Teardown subsystem
  | New_window nat
  | Add_mode nat mode
  | Set_active nat nat
  | App_add_window nat
  | Show_all nat
  | App_run

text \<open>
  What \<open>Config\<close> holds for the keys this file reads; \<open>None\<close> is a key that is
  absent, for which the property tree's \<open>get\<close> and \<open>get_child\<close> throw.
  \<open>startup_queries\<close> are the children of \<open>startup.queries\<close> in the tree's order.
\<close>

record config =
  test :: bool
  database_path :: "string option"
  show_on_startup :: "bool option"
  startup_queries :: "(string \<times> string) list option"

text \<open>The variables map after \<open>po::store\<close>.\<close>

record options =
  vm_help :: bool
  vm_config :: "string option"
  vm_new_config :: bool
  vm_test_config :: bool
  vm_mailto :: "string option"
  vm_no_auto_poll :: bool
  vm_log :: "string option"
  vm_append_log :: bool
  vm_disable_plugins :: bool

definition empty_vm :: options where
  "empty_vm = \<lparr>vm_help = False, vm_config = None, vm_new_config = False,
     vm_test_config = False, vm_mailto = None, vm_no_auto_poll = False, vm_log = None,
     vm_append_log = False, vm_disable_plugins = False\<rparr>"

text \<open>
  What \<open>po::parse_command_line\<close> does with the command line: it fills the map, or throws
  \<open>po::unknown_option\<close> (with its \<open>what ()\<close> text), or throws another of its errors,
  which \<open>main\<close> does not catch.
\<close>

datatype parse_result =
    Parsed options
  | Unknown_option string
  | Parse_error

text \<open>
  \<open>register_application\<close> throws when the registration fails; otherwise the application
  is remote (another process owns the name) or this process is the main instance.
\<close>

datatype reg_result = Reg_failed | Reg_remote | Reg_primary

text \<open>
  What the main loop delivers to the handlers connected by \<open>main\<close>: an activation
  (of the process itself, or forwarded by \<open>app->activate ()\<close> of another process), or
  the action \<open>mailto\<close> with its text.
\<close>

datatype event = Activate_event | Mailto_event string

text \<open>
  What the world outside this file answers: whether the build has plugins, whether the log
  file could be opened, which paths exist, the default path of the configuration file, the
  result of the registration, the configuration that each way of constructing \<open>Config\<close>
  yields, and the events of the main loop.
\<close>

record env =
  with_plugins :: bool
  logf_good :: bool
  existing_paths :: "string list"
  default_config_file :: string
  registration :: reg_result
  loaded_config :: "config_source \<Rightarrow> config"
  events :: "event list"

text \<open>
  The application object. \<open>actions\<close> and \<open>plugin_manager\<close> say whether the pointer
  of that name is set.
\<close>

record astroid =
  trace :: "effect list"
  logf_is_open :: bool
  activated :: bool
  actions :: bool
  plugin_manager :: bool
  n_windows :: nat

text \<open>
  Modelled from the spec: the members before \<open>main\<close> runs; they are declared in
  \<open>astroid.hh\<close>. The flag \<open>activated\<close> says that the process's own first activation
  has been serviced, which it has not; no subsystem exists, no log file is open and no
  window was created.
\<close>

definition astroid0 :: astroid where
  "astroid0 = \<lparr>trace = [], logf_is_open = False, activated = False, actions = False,
     plugin_manager = False, n_windows = 0\<rparr>"

datatype outcome = Exit nat | Throw exn

definition emit :: "effect \<Rightarrow> astroid \<Rightarrow> astroid" where
  "emit e st = st\<lparr>trace := trace st @ [e]\<rparr>"

definition log_line :: "level \<Rightarrow> string \<Rightarrow> astroid \<Rightarrow> astroid" where
  "log_line l s st = emit (Log l s) st"

subsection \<open>Windows\<close>

text \<open>The loop of \<open>open_new_window\<close> over the startup queries, lines 377 to 385.\<close>

fun add_queries :: "nat \<Rightarrow> (string \<times> string) list \<Rightarrow> astroid \<Rightarrow> astroid" where
  "add_queries mw [] st = st"
| "add_queries mw ((name, query) # kvs) st =
     add_queries mw kvs
       (emit (Add_mode mw ((new_mode (ThreadIndex query name))\<lparr>invincible := True\<rparr>))
          (log_line Info (''astroid: got query: '' @ name @ '': '' @ query) st))"

definition open_new_window ::
  "config \<Rightarrow> bool \<Rightarrow> astroid \<Rightarrow> (exn \<times> astroid) + (nat \<times> astroid)" where
  "open_new_window cfg open_defaults st =
     (let st1 = log_line Warn ''astroid: starting a new window..'' st;
          mw = n_windows st1;
          st2 = (emit (New_window mw) st1)\<lparr>n_windows := Suc mw\<rparr>
      in
        if open_defaults then
          (case show_on_startup cfg of
             None \<Rightarrow> Inl (Bad_path ''show_on_startup'', st2)
           | Some sos \<Rightarrow>
               let st3 =
                 (if sos
                  then emit (Add_mode mw ((new_mode SavedSearchesMode)\<lparr>invincible := True\<rparr>)) st2
                  else st2)
               in
                 (case startup_queries cfg of
                    None \<Rightarrow> Inl (Bad_path ''startup.queries'', st3)
                  | Some qpt \<Rightarrow>
                      Inr (mw,
                        emit (Show_all mw) (emit (App_add_window mw)
                          (emit (Set_active mw 0) (add_queries mw qpt st3))))))
        else Inr (mw, emit (Show_all mw) (emit (App_add_window mw) st2)))"

definition on_signal_activate :: "config \<Rightarrow> astroid \<Rightarrow> (exn \<times> astroid) + astroid" where
  "on_signal_activate cfg st =
     (if activated st then
        (case open_new_window cfg True st of
           Inl x \<Rightarrow> Inl x
         | Inr (mw, st') \<Rightarrow> Inr st')
      else Inr (st\<lparr>activated := True\<rparr>))"

definition send_mailto :: "nat \<Rightarrow> string \<Rightarrow> astroid \<Rightarrow> (exn \<times> astroid) + astroid" where
  "send_mailto mw url st =
     (let st1 = log_line Info (''astorid: mailto: '' @ url) st;
          scheme = uri_parse_scheme url
      in
        if 0 < length scheme then
          (case substr url (length scheme) (length url - length scheme) of
             Inl x \<Rightarrow> Inl (x, st1)
           | Inr url' \<Rightarrow>
               let pos = (case find_chr url' CHR ''?'' of None \<Rightarrow> length url' | Some p \<Rightarrow> p)
               in (case substr url' 0 pos of
                     Inl x \<Rightarrow> Inl (x, st1)
                   | Inr to \<Rightarrow> Inr (emit (Add_mode mw (new_mode (EditMessage to))) st1)))
        else Inr (emit (Add_mode mw (new_mode (EditMessage url))) st1))"

definition on_mailto_activate :: "config \<Rightarrow> string \<Rightarrow> astroid \<Rightarrow> (exn \<times> astroid) + astroid" where
  "on_mailto_activate cfg url st =
     (case open_new_window cfg False st of
        Inl x \<Rightarrow> Inl x
      | Inr (mw, st') \<Rightarrow> send_mailto mw url st')"

subsection \<open>\<open>Astroid::main\<close>\<close>

text \<open>
  Lines 90 to 111. After \<open>po::unknown_option\<close> nothing was stored, so the map is empty.
\<close>

definition main_options ::
  "parse_result \<Rightarrow> astroid \<Rightarrow> (outcome \<times> astroid) + (options \<times> astroid)" where
  "main_options pr st =
     (case pr of
        Parse_error \<Rightarrow> Inl (Throw Option_error, st)
      | _ \<Rightarrow>
          let (vm, caught, st1) =
                (case pr of
                   Unknown_option what \<Rightarrow>
                     (empty_vm, True, emit (Cout what) (emit (Cout ''unknown option'') st))
                 | Parsed v \<Rightarrow> (v, False, st)
                 | Parse_error \<Rightarrow> (empty_vm, False, st));
              show_help = (caught \<or> vm_help vm)
          in if show_help then Inl (Exit 0, emit Cout_desc st1) else Inr (vm, st1))"

text \<open>
  Lines 113 to 127. \<open>logf_good\<close> says whether the stream is good after \<open>open\<close>; a
  stream that is not good was not opened.
\<close>

definition main_log :: "options \<Rightarrow> env \<Rightarrow> astroid \<Rightarrow> astroid" where
  "main_log vm e st =
     (case vm_log vm of
        None \<Rightarrow> st
      | Some lfile \<Rightarrow>
          let st1 = (emit (Logf_open lfile (vm_append_log vm)) st)\<lparr>logf_is_open := logf_good e\<rparr>
          in
            if logf_good e then
              log_line Info (''logging to: '' @ lfile) (emit Log_add_logf st1)
            else
              let st2 =
                (if logf_is_open st1 then (emit Logf_close st1)\<lparr>logf_is_open := False\<rparr>
                 else st1)
              in log_line Err (''could not open: '' @ lfile @ '' for logging..'') st2)"

text \<open>
  Lines 129 to 163. \<open>Write_default_config p\<close> is \<open>ncnf.load_config (true)\<close> with
  \<open>std_paths.config_file = p\<close>, the call that writes the default configuration.
\<close>

definition main_new_config ::
  "options \<Rightarrow> env \<Rightarrow> astroid \<Rightarrow> (outcome \<times> astroid) + astroid" where
  "main_new_config vm e st =
     (if vm_new_config vm then
        if vm_test_config vm then
          Inl (Exit 1,
            log_line Err ''--new-config cannot be specified together with --test-config.'' st)
        else
          let st1 = emit (New_Config Config_new) (log_line Info ''creating new config..'' st)
          in
            (case vm_config vm of
               Some cnf \<Rightarrow>
                 if cnf \<in> set (existing_paths e) then
                   Inl (Exit 1,
                     log_line Err (''the config file: '' @ cnf @ '' already exists.'') st1)
                 else
                   Inl (Exit 0,
                     emit (Write_default_config cnf)
                       (log_line Info (''writing default config to: '' @ cnf) st1))
             | None \<Rightarrow>
                 if default_config_file e \<in> set (existing_paths e) then
                   Inl (Exit 1,
                     log_line Err
                       (''the config file: '' @ default_config_file e @ '' already exists.'') st1)
                 else
                   Inl (Exit 0,
                     emit (Write_default_config (default_config_file e))
                       (log_line Info
                          (''writing default config to: '' @ default_config_file e) st1)))
      else Inr st)"

text \<open>Lines 165 to 185.\<close>

definition main_flags :: "options \<Rightarrow> astroid \<Rightarrow> astroid" where
  "main_flags vm st =
     (let st1 =
            (if vm_no_auto_poll vm
             then log_line Info ''astroid: automatic polling is off.'' st
             else st)
      in case vm_mailto vm of
           Some mailtourl \<Rightarrow> log_line Debug (''astroid: composing mail to: '' @ mailtourl) st1
         | None \<Rightarrow> st1)"

text \<open>
  Lines 187 to 226. \<open>Add_action ''mailto''\<close> stands for creating the action, adding it
  to the application, enabling it and connecting \<open>on_mailto_activate\<close>.
\<close>

definition main_gtk :: "options \<Rightarrow> env \<Rightarrow> astroid \<Rightarrow> (outcome \<times> astroid) + astroid" where
  "main_gtk vm e st =
     (let st1 = emit App_register (emit App_create (log_line Debug ''loading gtk..'' st))
      in case registration e of
           Reg_failed \<Rightarrow> Inl (Throw Registration_error, st1)
         | Reg_remote \<Rightarrow>
             let st2 =
                   log_line Warn ''astroid: instance already running, opening new window..'' st1;
                 st3 =
                   (if vm_no_auto_poll vm then
                      log_line Warn
                        ''astroid: specifying no-auto-poll only makes sense when starting a new astroid instance, ignoring.''
                        st2
                    else st2)
             in (case vm_mailto vm of
                   Some mailtourl \<Rightarrow> Inl (Exit 0, emit (App_activate_action ''mailto'' mailtourl) st3)
                 | None \<Rightarrow> Inl (Exit 0, emit App_activate st3))
         | Reg_primary \<Rightarrow> Inr (emit (Add_action ''mailto'') (emit Connect_activate st1)))"

text \<open>Lines 228 to 247.\<close>

definition main_config ::
  "options \<Rightarrow> env \<Rightarrow> astroid \<Rightarrow> (outcome \<times> astroid) + (config \<times> astroid)" where
  "main_config vm e st =
     (let loaded =
        (case vm_config vm of
           Some c \<Rightarrow>
             if vm_test_config vm then
               Inl (Exit 1,
                 log_line Err ''--config cannot be specified together with --test-config.'' st)
             else
               Inr (loaded_config e (Config_file c),
                 emit (New_Config (Config_file c))
                   (log_line No_level (''astroid: loading config: '' @ c) st))
         | None \<Rightarrow>
             if vm_test_config vm then
               Inr (loaded_config e Config_test, emit (New_Config Config_test) st)
             else
               Inr (loaded_config e Config_default, emit (New_Config Config_default) st))
      in case loaded of
           Inl r \<Rightarrow> Inl r
         | Inr (cfg, st1) \<Rightarrow>
             (case database_path cfg of
                None \<Rightarrow> Inl (Throw (Bad_path ''database.path''), st1)
              | Some db_path \<Rightarrow> Inr (cfg, log_line Info (''notmuch db: '' @ db_path) st1)))"

text \<open>
  Lines 249 to 271. \<open>with_plugins\<close> is the build without \<open>DISABLE_PLUGINS\<close>.
\<close>

definition main_static :: "options \<Rightarrow> env \<Rightarrow> config \<Rightarrow> astroid \<Rightarrow> astroid" where
  "main_static vm e cfg st =
     (let st1 = emit (Init Date []) st;
          st2 = emit (Init Utils []) st1;
          st3 = emit (Init Db []) st2;
          st4 = emit (Init Keybindings []) st3;
          st5 = emit (Init SavedSearches []) st4;
          st6 = emit (Init AccountManager []) st5;
          st7 =
            (if with_plugins e then
               (emit (Init PluginManager [vm_disable_plugins vm, test cfg]) st6)
                 \<lparr>plugin_manager := True\<rparr>
             else st6);
          st8 = (emit (Init ActionManager []) st7)\<lparr>actions := True\<rparr>
      in emit (Init Poll [\<not> vm_no_auto_poll vm]) st8)"

text \<open>Lines 273 to 278.\<close>

definition main_first_window ::
  "options \<Rightarrow> config \<Rightarrow> astroid \<Rightarrow> (exn \<times> astroid) + astroid" where
  "main_first_window vm cfg st =
     (case vm_mailto vm of
        Some mailtourl \<Rightarrow>
          (case open_new_window cfg False st of
             Inl x \<Rightarrow> Inl x
           | Inr (mw, st') \<Rightarrow> send_mailto mw mailtourl st')
      | None \<Rightarrow>
          (case open_new_window cfg True st of
             Inl x \<Rightarrow> Inl x
           | Inr (mw, st') \<Rightarrow> Inr st'))"

text \<open>
  Line 279, \<open>app->run ()\<close>: the events of the main loop reach the two handlers in the
  order of their arrival. An exception of a handler ends the run.
\<close>

fun app_run :: "config \<Rightarrow> event list \<Rightarrow> astroid \<Rightarrow> (exn \<times> astroid) + astroid" where
  "app_run cfg [] st = Inr st"
| "app_run cfg (Activate_event # evs) st =
     (case on_signal_activate cfg st of
        Inl x \<Rightarrow> Inl x
      | Inr st' \<Rightarrow> app_run cfg evs st')"
| "app_run cfg (Mailto_event url # evs) st =
     (case on_mailto_activate cfg url st of
        Inl x \<Rightarrow> Inl x
      | Inr st' \<Rightarrow> app_run cfg evs st')"

text \<open>\<open>Astroid::on_quit\<close>, lines 329 to 346.\<close>

definition on_quit :: "env \<Rightarrow> astroid \<Rightarrow> astroid" where
  "on_quit e st =
     (let st1 = log_line Debug ''astroid: quitting..'' st;
          st2 = (if actions st1 then emit (Teardown ActionManager) st1 else st1);
          st3 = emit (Teardown SavedSearches) st2;
          st4 =
            (if with_plugins e then
               (if plugin_manager st3 then emit (Teardown PluginManager) st3 else st3)
             else st3);
          st5 =
            (if logf_is_open st4 then
               (emit Logf_close (emit Log_del_logf st4))\<lparr>logf_is_open := False\<rparr>
             else st4)
      in log_line Info ''astroid: goodbye!'' st5)"

text \<open>
  The whole of \<open>main\<close>, on a fresh application object: the process status (from \<open>exit\<close>
  or from \<open>return\<close>) or the exception that leaves \<open>main\<close>, and the application object
  at that moment.
\<close>

definition main :: "parse_result \<Rightarrow> env \<Rightarrow> outcome \<times> astroid" where
  "main pr e =
     (case main_options pr astroid0 of
        Inl r \<Rightarrow> r
      | Inr (vm, s1) \<Rightarrow>
     (case main_new_config vm e (main_log vm e s1) of
        Inl r \<Rightarrow> r
      | Inr s2 \<Rightarrow>
     (case main_gtk vm e (main_flags vm s2) of
        Inl r \<Rightarrow> r
      | Inr s3 \<Rightarrow>
     (case main_config vm e s3 of
        Inl r \<Rightarrow> r
      | Inr (cfg, s4) \<Rightarrow>
     (case main_first_window vm cfg (main_static vm e cfg s4) of
        Inl (x, s) \<Rightarrow> (Throw x, s)
      | Inr s5 \<Rightarrow>
     (case app_run cfg (events e) (emit App_run s5) of
        Inl (x, s) \<Rightarrow> (Throw x, s)
      | Inr s6 \<Rightarrow> (Exit 0, on_quit e s6)))))))"

subsection \<open>Reading a trace\<close>

definition inits :: "effect list \<Rightarrow> subsystem list" where
  "inits tr = concat (map (\<lambda>x. case x of Init s args \<Rightarrow> [s] | _ \<Rightarrow> []) tr)"

definition teardowns :: "effect list \<Rightarrow> subsystem list" where
  "teardowns tr = concat (map (\<lambda>x. case x of Teardown s \<Rightarrow> [s] | _ \<Rightarrow> []) tr)"

definition new_windows :: "effect list \<Rightarrow> nat list" where
  "new_windows tr = concat (map (\<lambda>x. case x of New_window w \<Rightarrow> [w] | _ \<Rightarrow> []) tr)"

definition modes_of :: "nat \<Rightarrow> effect list \<Rightarrow> mode list" where
  "modes_of w tr =
     concat (map (\<lambda>x. case x of Add_mode w' m \<Rightarrow> (if w' = w then [m] else []) | _ \<Rightarrow> []) tr)"

text \<open>
  The windows on which \<open>set_active\<close> is called: \<open>open_new_window\<close> does so for a
  window opened with the defaults, and for no other.
\<close>

definition default_windows :: "effect list \<Rightarrow> nat list" where
  "default_windows tr = concat (map (\<lambda>x. case x of Set_active w i \<Rightarrow> [w] | _ \<Rightarrow> []) tr)"

definition forwards :: "effect list \<Rightarrow> effect list" where
  "forwards tr =
     filter (\<lambda>x. case x of App_activate_action n p \<Rightarrow> True | App_activate \<Rightarrow> True | _ \<Rightarrow> False) tr"

definition errors_logged :: "effect list \<Rightarrow> string list" where
  "errors_logged tr = concat (map (\<lambda>x. case x of Log Err s \<Rightarrow> [s] | _ \<Rightarrow> []) tr)"

definition config_writes :: "effect list \<Rightarrow> string list" where
  "config_writes tr =
     concat (map (\<lambda>x. case x of Write_default_config p \<Rightarrow> [p] | _ \<Rightarrow> []) tr)"

text \<open>The calls a window receives, and the calls that create and register it.\<close>

definition window_calls :: "nat \<Rightarrow> effect list \<Rightarrow> effect list" where
  "window_calls w tr =
     filter (\<lambda>x. case x of
                   New_window w' \<Rightarrow> w' = w
                 | Add_mode w' m \<Rightarrow> w' = w
                 | Set_active w' i \<Rightarrow> w' = w
                 | App_add_window w' \<Rightarrow> w' = w
                 | Show_all w' \<Rightarrow> w' = w
                 | _ \<Rightarrow> False) tr"

text \<open>
  The paths opened for writing: the log file (\<open>logf.open\<close>, which truncates the file
  unless it appends) and the configuration file written by \<open>load_config (true)\<close>.
\<close>

definition written_paths :: "effect list \<Rightarrow> string list" where
  "written_paths tr =
     concat (map (\<lambda>x. case x of
                          Logf_open p a \<Rightarrow> [p]
                        | Write_default_config p \<Rightarrow> [p]
                        | _ \<Rightarrow> []) tr)"

text \<open>
  The decoder in the words of the specification (section 4.1), to compare with what
  \<open>send_mailto\<close> computes: a text with a URI scheme prefix such as \<open>mailto:\<close> loses
  that prefix, the scheme and its colon, and the recipient is everything up to the first
  \<open>?\<close> or to the end; a text with no scheme is the recipient as it stands.
\<close>

definition spec_decode :: "string \<Rightarrow> string" where
  "spec_decode raw =
     (let scheme = uri_parse_scheme raw in
      if scheme = [] then raw
      else takeWhile (\<lambda>c. c \<noteq> CHR ''?'') (drop (Suc (length scheme)) raw))"

text \<open>A configuration that has the three keys this file reads.\<close>

definition config_complete :: "config \<Rightarrow> bool" where
  "config_complete cfg \<longleftrightarrow>
     database_path cfg \<noteq> None \<and> show_on_startup cfg \<noteq> None \<and> startup_queries cfg \<noteq> None"

subsection \<open>A sample configuration and environment\<close>

definition example_config :: config where
  "example_config =
     \<lparr>test = False, database_path = Some ''/home/user/mail'', show_on_startup = Some True,
      startup_queries = Some [(''inbox'', ''tag:inbox''), (''unread'', ''tag:unread'')]\<rparr>"

definition example_env :: env where
  "example_env =
     \<lparr>with_plugins = True, logf_good = True, existing_paths = [''/home/user/config''],
      default_config_file = ''/home/user/config'', registration = Reg_primary,
      loaded_config = (\<lambda>src. example_config), events = [Activate_event]\<rparr>"

section \<open>Properties\<close>

subsection \<open>Traces\<close>

lemma emit_simps [simp]:
  "trace (emit x st) = trace st @ [x]"
  "logf_is_open (emit x st) = logf_is_open st"
  "activated (emit x st) = activated st"
  "actions (emit x st) = actions st"
  "plugin_manager (emit x st) = plugin_manager st"
  "n_windows (emit x st) = n_windows st"
  by (simp_all add: emit_def)

lemma log_line_simps [simp]:
  "trace (log_line l s st) = trace st @ [Log l s]"
  "logf_is_open (log_line l s st) = logf_is_open st"
  "activated (log_line l s st) = activated st"
  "actions (log_line l s st) = actions st"
  "plugin_manager (log_line l s st) = plugin_manager st"
  "n_windows (log_line l s st) = n_windows st"
  by (simp_all add: log_line_def)

lemma inits_simps [simp]:
  "inits [] = []"
  "inits (x # xs) = (case x of Init s args \<Rightarrow> [s] | _ \<Rightarrow> []) @ inits xs"
  "inits (xs @ ys) = inits xs @ inits ys"
  by (simp_all add: inits_def)

lemma teardowns_simps [simp]:
  "teardowns [] = []"
  "teardowns (x # xs) = (case x of Teardown s \<Rightarrow> [s] | _ \<Rightarrow> []) @ teardowns xs"
  "teardowns (xs @ ys) = teardowns xs @ teardowns ys"
  by (simp_all add: teardowns_def)

lemma new_windows_simps [simp]:
  "new_windows [] = []"
  "new_windows (x # xs) = (case x of New_window w \<Rightarrow> [w] | _ \<Rightarrow> []) @ new_windows xs"
  "new_windows (xs @ ys) = new_windows xs @ new_windows ys"
  by (simp_all add: new_windows_def)

lemma modes_of_simps [simp]:
  "modes_of w [] = []"
  "modes_of w (x # xs) =
     (case x of Add_mode w' m \<Rightarrow> (if w' = w then [m] else []) | _ \<Rightarrow> []) @ modes_of w xs"
  "modes_of w (xs @ ys) = modes_of w xs @ modes_of w ys"
  by (simp_all add: modes_of_def)

lemma default_windows_simps [simp]:
  "default_windows [] = []"
  "default_windows (x # xs) = (case x of Set_active w i \<Rightarrow> [w] | _ \<Rightarrow> []) @ default_windows xs"
  "default_windows (xs @ ys) = default_windows xs @ default_windows ys"
  by (simp_all add: default_windows_def)

lemma window_calls_simps [simp]:
  "window_calls w [] = []"
  "window_calls w (x # xs) =
     (if (case x of
            New_window w' \<Rightarrow> w' = w
          | Add_mode w' m \<Rightarrow> w' = w
          | Set_active w' i \<Rightarrow> w' = w
          | App_add_window w' \<Rightarrow> w' = w
          | Show_all w' \<Rightarrow> w' = w
          | _ \<Rightarrow> False) then [x] else []) @ window_calls w xs"
  "window_calls w (xs @ ys) = window_calls w xs @ window_calls w ys"
  by (simp_all add: window_calls_def)

lemma forwards_simps [simp]:
  "forwards [] = []"
  "forwards (x # xs) =
     (case x of App_activate_action n p \<Rightarrow> [x] | App_activate \<Rightarrow> [x] | _ \<Rightarrow> []) @ forwards xs"
  "forwards (xs @ ys) = forwards xs @ forwards ys"
  by (simp_all add: forwards_def split: effect.split)

lemma errors_logged_simps [simp]:
  "errors_logged [] = []"
  "errors_logged (x # xs) = (case x of Log Err s \<Rightarrow> [s] | _ \<Rightarrow> []) @ errors_logged xs"
  "errors_logged (xs @ ys) = errors_logged xs @ errors_logged ys"
  by (simp_all add: errors_logged_def)

lemma config_writes_simps [simp]:
  "config_writes [] = []"
  "config_writes (x # xs) = (case x of Write_default_config p \<Rightarrow> [p] | _ \<Rightarrow> []) @ config_writes xs"
  "config_writes (xs @ ys) = config_writes xs @ config_writes ys"
  by (simp_all add: config_writes_def)

lemma written_paths_simps [simp]:
  "written_paths [] = []"
  "written_paths (x # xs) =
     (case x of Logf_open p a \<Rightarrow> [p] | Write_default_config p \<Rightarrow> [p] | _ \<Rightarrow> []) @
     written_paths xs"
  "written_paths (xs @ ys) = written_paths xs @ written_paths ys"
  by (simp_all add: written_paths_def)

lemma scan_scheme_le: "scan_scheme s = Some n \<Longrightarrow> n \<le> length s"
  by (induction s arbitrary: n) (auto split: if_splits)

lemma uri_parse_scheme_length: "length (uri_parse_scheme url) \<le> length url"
  by (auto simp: uri_parse_scheme_def split: list.split option.split)

lemma find_chr_takeWhile:
  "take (case find_chr s c of None \<Rightarrow> length s | Some p \<Rightarrow> p) s = takeWhile (\<lambda>x. x \<noteq> c) s"
  by (induction s) (auto split: option.split)

lemma mailto_to_eq:
  "mailto_to url =
     (if uri_parse_scheme url = [] then Inr url
      else Inr (takeWhile (\<lambda>x. x \<noteq> CHR ''?'') (drop (length (uri_parse_scheme url)) url)))"
  using uri_parse_scheme_length [of url]
  by (simp add: mailto_to_def substr_def Let_def find_chr_takeWhile)

lemma send_mailto_eq:
  "send_mailto mw url st =
     (case mailto_to url of
        Inl x \<Rightarrow> Inl (x, log_line Info (''astorid: mailto: '' @ url) st)
      | Inr to \<Rightarrow>
          Inr (emit (Add_mode mw (new_mode (EditMessage to)))
                 (log_line Info (''astorid: mailto: '' @ url) st)))"
  by (simp add: send_mailto_def mailto_to_def Let_def split: sum.split)

lemma scan_scheme_prefix:
  "\<forall>c \<in> set s. scheme_char c \<and> c \<noteq> CHR '':'' \<Longrightarrow> scan_scheme (s @ CHR '':'' # rest) = Some (length s)"
  by (induction s) auto

lemma uri_parse_scheme_mailto: "uri_parse_scheme (''mailto:'' @ addr) = ''mailto''"
  using scan_scheme_prefix [of "''mailto''" addr]
  by (simp add: uri_parse_scheme_def g_ascii_isalpha_def g_ascii_isdigit_def scheme_char_def)

lemma mailto_to_mailto:
  "mailto_to (''mailto:'' @ addr) = Inr (CHR '':'' # takeWhile (\<lambda>x. x \<noteq> CHR ''?'') addr)"
  using uri_parse_scheme_mailto [of addr] by (simp add: mailto_to_eq)


lemma scan_scheme_colon:
  "scan_scheme s = Some n \<Longrightarrow> drop n s = CHR '':'' # drop (Suc n) s"
  by (induction s arbitrary: n) (auto split: if_splits)

lemma uri_parse_scheme_colon:
  assumes "uri_parse_scheme url \<noteq> []"
  shows "drop (length (uri_parse_scheme url)) url =
     CHR '':'' # drop (Suc (length (uri_parse_scheme url))) url"
proof -
  from assms obtain n where n: "scan_scheme url = Some n" and u: "uri_parse_scheme url = take n url"
    by (auto simp: uri_parse_scheme_def split: list.splits if_splits option.splits)
  from scan_scheme_le [OF n] have "length (take n url) = n" by simp
  with scan_scheme_colon [OF n] u show ?thesis by simp
qed

text \<open>
  For every text with a scheme, the address of \<open>send_mailto\<close> is the recipient of the
  specification with the colon of the scheme in front; without a scheme the two agree.
\<close>

lemma mailto_to_spec_decode:
  "mailto_to url =
     Inr (if uri_parse_scheme url = [] then spec_decode url else CHR '':'' # spec_decode url)"
  using uri_parse_scheme_colon [of url]
  by (simp add: mailto_to_eq spec_decode_def)

subsection \<open>The sample values\<close>

lemma astroid0_simps [simp]:
  "trace astroid0 = []"
  "logf_is_open astroid0 = False"
  "activated astroid0 = False"
  "actions astroid0 = False"
  "plugin_manager astroid0 = False"
  "n_windows astroid0 = 0"
  by (simp_all add: astroid0_def)

lemma example_simps [simp]:
  "with_plugins example_env"
  "registration example_env = Reg_primary"
  "events example_env = [Activate_event]"
  "loaded_config example_env src = example_config"
  "database_path example_config = Some ''/home/user/mail''"
  "show_on_startup example_config = Some True"
  "startup_queries example_config =
     Some [(''inbox'', ''tag:inbox''), (''unread'', ''tag:unread'')]"
  by (simp_all add: example_env_def example_config_def)

lemma empty_vm_simps [simp]:
  "\<not> vm_help empty_vm"
  "vm_config empty_vm = None"
  "\<not> vm_new_config empty_vm"
  "\<not> vm_test_config empty_vm"
  "vm_mailto empty_vm = None"
  "\<not> vm_no_auto_poll empty_vm"
  "vm_log empty_vm = None"
  by (simp_all add: empty_vm_def)

subsection \<open>Windows and handlers\<close>

lemma add_queries_eq:
  "add_queries mw qs st =
     st\<lparr>trace := trace st @
       concat (map (\<lambda>(name, query).
         [Log Info (''astroid: got query: '' @ name @ '': '' @ query),
          Add_mode mw \<lparr>kind = ThreadIndex query name, invincible = True\<rparr>]) qs)\<rparr>"
  by (induction mw qs st rule: add_queries.induct)
     (simp_all add: emit_def log_line_def new_mode_def)

lemma queries_quiet [simp]:
  "inits (concat (map (\<lambda>(name, query).
      [Log Info (f name query), Add_mode w (g name query)]) qs)) = []"
  "teardowns (concat (map (\<lambda>(name, query).
      [Log Info (f name query), Add_mode w (g name query)]) qs)) = []"
  "new_windows (concat (map (\<lambda>(name, query).
      [Log Info (f name query), Add_mode w (g name query)]) qs)) = []"
  "default_windows (concat (map (\<lambda>(name, query).
      [Log Info (f name query), Add_mode w (g name query)]) qs)) = []"
  by (induction qs) auto

lemma window_calls_queries:
  "window_calls w (concat (map (\<lambda>(name, query).
      [Log Info (f name query), Add_mode w (g name query)]) qs)) =
   map (\<lambda>(name, query). Add_mode w (g name query)) qs"
  by (induction qs) auto

lemma modes_of_queries:
  "modes_of w (concat (map (\<lambda>(name, query).
      [Log Info (f name query), Add_mode w (g name query)]) qs)) =
   map (\<lambda>(name, query). g name query) qs"
  by (induction qs) auto

lemma open_new_window_plain:
  "open_new_window cfg False st =
     Inr (n_windows st,
       st\<lparr>trace := trace st @
            [Log Warn ''astroid: starting a new window..'', New_window (n_windows st),
             App_add_window (n_windows st), Show_all (n_windows st)],
          n_windows := Suc (n_windows st)\<rparr>)"
  by (simp add: open_new_window_def emit_def log_line_def Let_def)

lemma open_new_window_defaults:
  assumes "show_on_startup cfg = Some sos" and "startup_queries cfg = Some qs"
  shows "open_new_window cfg True st =
     Inr (n_windows st,
       st\<lparr>trace := trace st @
            [Log Warn ''astroid: starting a new window..'', New_window (n_windows st)] @
            (if sos then [Add_mode (n_windows st) \<lparr>kind = SavedSearchesMode, invincible = True\<rparr>]
             else []) @
            concat (map (\<lambda>(name, query).
              [Log Info (''astroid: got query: '' @ name @ '': '' @ query),
               Add_mode (n_windows st) \<lparr>kind = ThreadIndex query name, invincible = True\<rparr>]) qs) @
            [Set_active (n_windows st) 0, App_add_window (n_windows st),
             Show_all (n_windows st)],
          n_windows := Suc (n_windows st)\<rparr>)"
  using assms
  by (simp add: open_new_window_def add_queries_eq emit_def log_line_def new_mode_def Let_def)

lemma open_new_window_frame:
  assumes "open_new_window cfg b st = Inr (mw, st')"
  shows "inits (trace st') = inits (trace st)"
    and "teardowns (trace st') = teardowns (trace st)"
    and "actions st' = actions st"
    and "plugin_manager st' = plugin_manager st"
    and "logf_is_open st' = logf_is_open st"
  using assms
  by (auto simp: open_new_window_def Let_def add_queries_eq split: option.splits if_splits)

lemma on_mailto_activate_eq:
  "on_mailto_activate cfg url st =
     (case mailto_to url of
        Inl x \<Rightarrow>
          Inl (x, st\<lparr>trace := trace st @
                 [Log Warn ''astroid: starting a new window..'', New_window (n_windows st),
                  App_add_window (n_windows st), Show_all (n_windows st),
                  Log Info (''astorid: mailto: '' @ url)],
               n_windows := Suc (n_windows st)\<rparr>)
      | Inr to \<Rightarrow>
          Inr (st\<lparr>trace := trace st @
                 [Log Warn ''astroid: starting a new window..'', New_window (n_windows st),
                  App_add_window (n_windows st), Show_all (n_windows st),
                  Log Info (''astorid: mailto: '' @ url),
                  Add_mode (n_windows st) (new_mode (EditMessage to))],
               n_windows := Suc (n_windows st)\<rparr>))"
  by (simp add: on_mailto_activate_def open_new_window_plain send_mailto_eq emit_def
      log_line_def split: sum.split)

lemma main_first_window_mailto:
  "vm_mailto vm = Some url \<Longrightarrow> main_first_window vm cfg st = on_mailto_activate cfg url st"
  by (simp add: main_first_window_def on_mailto_activate_def)

lemma on_signal_activate_frame:
  assumes "on_signal_activate cfg st = Inr st'"
  shows "inits (trace st') = inits (trace st)"
    and "teardowns (trace st') = teardowns (trace st)"
    and "actions st' = actions st"
    and "plugin_manager st' = plugin_manager st"
    and "logf_is_open st' = logf_is_open st"
  using assms open_new_window_frame [of cfg True st]
  by (auto simp: on_signal_activate_def split: if_splits sum.splits prod.splits)

lemma on_mailto_activate_frame:
  assumes "on_mailto_activate cfg url st = Inr st'"
  shows "inits (trace st') = inits (trace st)"
    and "teardowns (trace st') = teardowns (trace st)"
    and "actions st' = actions st"
    and "plugin_manager st' = plugin_manager st"
    and "logf_is_open st' = logf_is_open st"
  using assms
  by (auto simp: on_mailto_activate_eq mailto_to_eq split: if_splits)

lemma on_signal_activate_open:
  assumes "show_on_startup cfg = Some sos" and "startup_queries cfg = Some qs"
    and "activated st"
  shows "\<exists>st'. on_signal_activate cfg st = Inr st' \<and> activated st' \<and>
     n_windows st' = Suc (n_windows st) \<and>
     new_windows (trace st') = new_windows (trace st) @ [n_windows st] \<and>
     default_windows (trace st') = default_windows (trace st) @ [n_windows st]"
  using assms(3)
  by (simp add: on_signal_activate_def open_new_window_defaults [OF assms(1,2)])

lemma app_run_frame:
  "app_run cfg evs st = Inr st' \<Longrightarrow>
     inits (trace st') = inits (trace st) \<and> teardowns (trace st') = teardowns (trace st) \<and>
     actions st' = actions st \<and> plugin_manager st' = plugin_manager st \<and>
     logf_is_open st' = logf_is_open st"
proof (induction cfg evs st rule: app_run.induct)
  case (1 cfg st)
  then show ?case by simp
next
  case (2 cfg evs st)
  then obtain s where s: "on_signal_activate cfg st = Inr s" and r: "app_run cfg evs s = Inr st'"
    by (auto split: sum.splits)
  from "2.IH" [OF s r] on_signal_activate_frame [OF s] show ?case by simp
next
  case (3 cfg url evs st)
  then obtain s where s: "on_mailto_activate cfg url st = Inr s"
    and r: "app_run cfg evs s = Inr st'"
    by (auto split: sum.splits)
  from "3.IH" [OF s r] on_mailto_activate_frame [OF s] show ?case by simp
qed

lemma app_run_activations:
  assumes "show_on_startup cfg = Some sos" and "startup_queries cfg = Some qs"
  shows "activated st \<Longrightarrow>
     \<exists>st'. app_run cfg (replicate k Activate_event) st = Inr st' \<and>
       new_windows (trace st') =
         new_windows (trace st) @ [n_windows st ..< n_windows st + k] \<and>
       default_windows (trace st') =
         default_windows (trace st) @ [n_windows st ..< n_windows st + k]"
proof (induction k arbitrary: st)
  case 0
  then show ?case by simp
next
  case (Suc k)
  from on_signal_activate_open [OF assms Suc.prems]
  obtain s where s: "on_signal_activate cfg st = Inr s" "activated s"
    "n_windows s = Suc (n_windows st)"
    "new_windows (trace s) = new_windows (trace st) @ [n_windows st]"
    "default_windows (trace s) = default_windows (trace st) @ [n_windows st]"
    by blast
  from Suc.IH [OF s(2)] obtain st' where st': "app_run cfg (replicate k Activate_event) s = Inr st'"
    "new_windows (trace st') = new_windows (trace s) @ [n_windows s ..< n_windows s + k]"
    "default_windows (trace st') = default_windows (trace s) @ [n_windows s ..< n_windows s + k]"
    by blast
  have u: "[n_windows st ..< n_windows st + Suc k] =
      n_windows st # [Suc (n_windows st) ..< Suc (n_windows st) + k]"
    by (simp add: upt_conv_Cons del: upt_Suc)
  have "app_run cfg (replicate (Suc k) Activate_event) st = Inr st'"
    using s(1) st'(1) by simp
  moreover have "new_windows (trace st') =
      new_windows (trace st) @ [n_windows st ..< n_windows st + Suc k]"
    unfolding st'(2) s(3,4) u by simp
  moreover have "default_windows (trace st') =
      default_windows (trace st) @ [n_windows st ..< n_windows st + Suc k]"
    unfolding st'(3) s(3,5) u by simp
  ultimately show ?case by blast
qed

lemma main_first_window_frame:
  assumes "main_first_window vm cfg st = Inr st'"
  shows "inits (trace st') = inits (trace st)"
    and "teardowns (trace st') = teardowns (trace st)"
    and "actions st' = actions st"
    and "plugin_manager st' = plugin_manager st"
    and "logf_is_open st' = logf_is_open st"
  using assms open_new_window_frame [of cfg True st] on_mailto_activate_frame [of cfg _ st]
  by (auto simp: main_first_window_def on_mailto_activate_def
      split: option.splits sum.splits prod.splits)

subsection \<open>The phases of \<open>main\<close>\<close>

lemma main_log_quiet [simp]:
  "inits (trace (main_log vm e st)) = inits (trace st)"
  "teardowns (trace (main_log vm e st)) = teardowns (trace st)"
  "new_windows (trace (main_log vm e st)) = new_windows (trace st)"
  "default_windows (trace (main_log vm e st)) = default_windows (trace st)"
  "forwards (trace (main_log vm e st)) = forwards (trace st)"
  "config_writes (trace (main_log vm e st)) = config_writes (trace st)"
  "actions (main_log vm e st) = actions st"
  "plugin_manager (main_log vm e st) = plugin_manager st"
  "activated (main_log vm e st) = activated st"
  "n_windows (main_log vm e st) = n_windows st"
  by (simp_all add: main_log_def Let_def split: option.split)

lemma main_log_written [simp]:
  "written_paths (trace (main_log vm e st)) =
     written_paths (trace st) @ (case vm_log vm of None \<Rightarrow> [] | Some lfile \<Rightarrow> [lfile])"
  by (simp add: main_log_def Let_def split: option.split)

lemma main_log_set [simp]:
  "App_register \<in> set (trace (main_log vm e st)) \<longleftrightarrow> App_register \<in> set (trace st)"
  "App_create \<in> set (trace (main_log vm e st)) \<longleftrightarrow> App_create \<in> set (trace st)"
  by (simp_all add: main_log_def Let_def split: option.split)

lemma main_flags_quiet [simp]:
  "inits (trace (main_flags vm st)) = inits (trace st)"
  "teardowns (trace (main_flags vm st)) = teardowns (trace st)"
  "new_windows (trace (main_flags vm st)) = new_windows (trace st)"
  "default_windows (trace (main_flags vm st)) = default_windows (trace st)"
  "forwards (trace (main_flags vm st)) = forwards (trace st)"
  "config_writes (trace (main_flags vm st)) = config_writes (trace st)"
  "actions (main_flags vm st) = actions st"
  "plugin_manager (main_flags vm st) = plugin_manager st"
  "activated (main_flags vm st) = activated st"
  "n_windows (main_flags vm st) = n_windows st"
  "logf_is_open (main_flags vm st) = logf_is_open st"
  by (simp_all add: main_flags_def Let_def split: option.split)

lemma main_help:
  "main (Unknown_option what) e =
     (Exit 0, astroid0\<lparr>trace := [Cout ''unknown option'', Cout what, Cout_desc]\<rparr>)"
  "vm_help vm \<Longrightarrow> main (Parsed vm) e = (Exit 0, astroid0\<lparr>trace := [Cout_desc]\<rparr>)"
  by (simp_all add: main_def main_options_def emit_def astroid0_def)

lemma main_parsed:
  "\<not> vm_help vm \<Longrightarrow>
   main (Parsed vm) e =
     (case main_new_config vm e (main_log vm e astroid0) of
        Inl r \<Rightarrow> r
      | Inr s2 \<Rightarrow>
     (case main_gtk vm e (main_flags vm s2) of
        Inl r \<Rightarrow> r
      | Inr s3 \<Rightarrow>
     (case main_config vm e s3 of
        Inl r \<Rightarrow> r
      | Inr (cfg, s4) \<Rightarrow>
     (case main_first_window vm cfg (main_static vm e cfg s4) of
        Inl (x, s) \<Rightarrow> (Throw x, s)
      | Inr s5 \<Rightarrow>
     (case app_run cfg (events e) (emit App_run s5) of
        Inl (x, s) \<Rightarrow> (Throw x, s)
      | Inr s6 \<Rightarrow> (Exit 0, on_quit e s6))))))"
  by (simp add: main_def main_options_def)

lemma main_new_config_test:
  assumes "vm_new_config vm" and "\<not> vm_help vm" and "vm_test_config vm"
  shows "main (Parsed vm) e =
     (Exit 1,
      log_line Err ''--new-config cannot be specified together with --test-config.''
        (main_log vm e astroid0))"
  using assms by (simp add: main_def main_options_def main_new_config_def)


lemma main_remote:
  assumes "\<not> vm_help vm" and "\<not> vm_new_config vm" and "registration e = Reg_remote"
  shows "main (Parsed vm) e =
     (Exit 0,
      emit (case vm_mailto vm of
              Some mailtourl \<Rightarrow> App_activate_action ''mailto'' mailtourl
            | None \<Rightarrow> App_activate)
        ((if vm_no_auto_poll vm then
            log_line Warn
              ''astroid: specifying no-auto-poll only makes sense when starting a new astroid instance, ignoring.''
          else id)
           (log_line Warn ''astroid: instance already running, opening new window..''
              (emit App_register (emit App_create (log_line Debug ''loading gtk..''
                 (main_flags vm (main_log vm e astroid0))))))))"
  using assms
  by (simp add: main_def main_options_def main_new_config_def main_gtk_def Let_def
      split: option.split)

lemma main_failed:
  "\<not> vm_help vm \<Longrightarrow> \<not> vm_new_config vm \<Longrightarrow> registration e = Reg_failed \<Longrightarrow>
   main (Parsed vm) e =
     (Throw Registration_error,
      emit App_register (emit App_create (log_line Debug ''loading gtk..''
        (main_flags vm (main_log vm e astroid0)))))"
  by (simp add: main_parsed main_new_config_def main_gtk_def Let_def)

lemma main_primary:
  "\<not> vm_help vm \<Longrightarrow> \<not> vm_new_config vm \<Longrightarrow> registration e = Reg_primary \<Longrightarrow>
   main (Parsed vm) e =
     (case main_config vm e
             (emit (Add_action ''mailto'') (emit Connect_activate (emit App_register
                (emit App_create (log_line Debug ''loading gtk..''
                   (main_flags vm (main_log vm e astroid0))))))) of
        Inl r \<Rightarrow> r
      | Inr (cfg, s4) \<Rightarrow>
     (case main_first_window vm cfg (main_static vm e cfg s4) of
        Inl (x, s) \<Rightarrow> (Throw x, s)
      | Inr s5 \<Rightarrow>
     (case app_run cfg (events e) (emit App_run s5) of
        Inl (x, s) \<Rightarrow> (Throw x, s)
      | Inr s6 \<Rightarrow> (Exit 0, on_quit e s6))))"
  by (simp add: main_parsed main_new_config_def main_gtk_def Let_def)

lemma main_config_conflict:
  "vm_config vm = Some c \<Longrightarrow> vm_test_config vm \<Longrightarrow>
     main_config vm e st =
       Inl (Exit 1, log_line Err ''--config cannot be specified together with --test-config.'' st)"
  by (simp add: main_config_def)

lemma main_config_frame:
  assumes "main_config vm e st = Inr (cfg, st')"
  shows "inits (trace st') = inits (trace st)"
    and "teardowns (trace st') = teardowns (trace st)"
    and "new_windows (trace st') = new_windows (trace st)"
    and "default_windows (trace st') = default_windows (trace st)"
    and "actions st' = actions st"
    and "plugin_manager st' = plugin_manager st"
    and "logf_is_open st' = logf_is_open st"
    and "activated st' = activated st"
    and "n_windows st' = n_windows st"
  using assms
  by (auto simp: main_config_def Let_def split: option.splits if_splits)

lemma main_config_exit:
  "main_config vm e st = Inl (r, st') \<Longrightarrow> r \<noteq> Exit 0"
  by (auto simp: main_config_def Let_def split: option.splits if_splits)

lemma main_config_ok:
  assumes "\<not> (vm_config vm \<noteq> None \<and> vm_test_config vm)"
    and "\<forall>src. config_complete (loaded_config e src)"
  shows "\<exists>cfg st'. main_config vm e st = Inr (cfg, st') \<and> config_complete cfg"
proof -
  define src where "src =
    (case vm_config vm of
       Some c \<Rightarrow> Config_file c
     | None \<Rightarrow> if vm_test_config vm then Config_test else Config_default)"
  have cc: "config_complete (loaded_config e src)"
    using assms(2) by simp
  then obtain p where p: "database_path (loaded_config e src) = Some p"
    by (auto simp: config_complete_def)
  show ?thesis
    using assms(1) cc p
    by (cases "vm_config vm"; cases "vm_test_config vm")
       (simp_all add: main_config_def src_def)
qed

lemma main_static_simps [simp]:
  "inits (trace (main_static vm e cfg st)) =
     inits (trace st) @ [Date, Utils, Db, Keybindings, SavedSearches, AccountManager] @
     (if with_plugins e then [PluginManager] else []) @ [ActionManager, Poll]"
  "teardowns (trace (main_static vm e cfg st)) = teardowns (trace st)"
  "new_windows (trace (main_static vm e cfg st)) = new_windows (trace st)"
  "default_windows (trace (main_static vm e cfg st)) = default_windows (trace st)"
  "actions (main_static vm e cfg st) = True"
  "plugin_manager (main_static vm e cfg st) = (with_plugins e \<or> plugin_manager st)"
  "logf_is_open (main_static vm e cfg st) = logf_is_open st"
  "activated (main_static vm e cfg st) = activated st"
  "n_windows (main_static vm e cfg st) = n_windows st"
  by (simp_all add: main_static_def Let_def)

lemma on_quit_simps [simp]:
  "inits (trace (on_quit e st)) = inits (trace st)"
  "teardowns (trace (on_quit e st)) =
     teardowns (trace st) @ (if actions st then [ActionManager] else []) @ [SavedSearches] @
     (if with_plugins e \<and> plugin_manager st then [PluginManager] else [])"
  "new_windows (trace (on_quit e st)) = new_windows (trace st)"
  "default_windows (trace (on_quit e st)) = default_windows (trace st)"
  by (simp_all add: on_quit_def Let_def)

lemma main_example:
  "fst (main (Parsed empty_vm) example_env) = Exit 0"
  by (simp add: main_primary main_config_def main_first_window_def
      open_new_window_defaults on_signal_activate_def)

section \<open>The claims\<close>

subsection \<open>C1: the mailto address\<close>

text \<open>
  C1. The claim is that \<open>send_mailto\<close> strips the scheme of a mailto URL, so that
  \<open>mailto:\<close> followed by an address yields that address. The code cuts the URL after
  as many characters as the scheme has, and the scheme that \<open>uri_parse_scheme\<close> gives
  has no colon: for \<open>mailto:foo@bar.com\<close> the compose view is created for
  \<open>:foo@bar.com\<close>, colon included. (Lemma \<open>mailto_to_mailto\<close> is the same for every
  address; lemma \<open>mailto_to_eq\<close> shows that no input makes the extraction fail and that
  a text without a scheme is passed on unchanged.)
\<close>

theorem send_mailto_keeps_colon:
  "send_mailto 0 ''mailto:foo@bar.com'' astroid0 =
     Inr (astroid0\<lparr>trace :=
       [Log Info ''astorid: mailto: mailto:foo@bar.com'',
        Add_mode 0 (new_mode (EditMessage '':foo@bar.com''))]\<rparr>)"
  by (simp add: send_mailto_def uri_parse_scheme_def g_ascii_isalpha_def g_ascii_isdigit_def
      scheme_char_def substr_def emit_def log_line_def astroid0_def)

subsection \<open>C2: the order of set-up and of teardown\<close>

text \<open>
  C2, as amended. When \<open>main\<close> runs as the main instance and returns after the main
  loop, the subsystems were set up in the order date utilities, utilities, database,
  keybindings, saved searches, account manager, plugin manager (in a build with plugins),
  action manager, poller; and \<open>on_quit\<close> tears down the action manager first, then the
  saved searches, then the plugin manager (in a build with plugins). With plugins this is
  not the reverse of the order of set-up: the saved searches were set up before the plugin
  manager and are also torn down before it.
\<close>

theorem init_and_teardown_order:
  assumes "registration e = Reg_primary" and "\<not> vm_help vm" and "\<not> vm_new_config vm"
    and "main (Parsed vm) e = (Exit 0, st)"
  shows "inits (trace st) =
       [Date, Utils, Db, Keybindings, SavedSearches, AccountManager] @
       (if with_plugins e then [PluginManager] else []) @ [ActionManager, Poll] \<and>
     teardowns (trace st) =
       [ActionManager, SavedSearches] @ (if with_plugins e then [PluginManager] else [])"
proof -
  let ?s3 = "emit (Add_action ''mailto'') (emit Connect_activate (emit App_register
      (emit App_create (log_line Debug ''loading gtk..''
         (main_flags vm (main_log vm e astroid0))))))"
  have m: "main (Parsed vm) e =
     (case main_config vm e ?s3 of
        Inl r \<Rightarrow> r
      | Inr (cfg, s4) \<Rightarrow>
     (case main_first_window vm cfg (main_static vm e cfg s4) of
        Inl (x, s) \<Rightarrow> (Throw x, s)
      | Inr s5 \<Rightarrow>
     (case app_run cfg (events e) (emit App_run s5) of
        Inl (x, s) \<Rightarrow> (Throw x, s)
      | Inr s6 \<Rightarrow> (Exit 0, on_quit e s6))))"
    by (rule main_primary [OF assms(2,3,1)])
  from m assms(4) main_config_exit [of vm e ?s3]
  obtain cfg s4 where c: "main_config vm e ?s3 = Inr (cfg, s4)"
    by (cases "main_config vm e ?s3") auto
  from m assms(4) c obtain s5
    where w: "main_first_window vm cfg (main_static vm e cfg s4) = Inr s5"
    by (cases "main_first_window vm cfg (main_static vm e cfg s4)") auto
  from m assms(4) c w obtain s6
    where r: "app_run cfg (events e) (emit App_run s5) = Inr s6" and st: "st = on_quit e s6"
    by (cases "app_run cfg (events e) (emit App_run s5)") auto
  note f4 = main_config_frame [OF c]
  note f5 = main_first_window_frame [OF w]
  note f6 = app_run_frame [OF r]
  show ?thesis
    using f4 f5 f6 by (simp add: st)
qed

text \<open>The sample run, a build with plugins.\<close>

theorem init_and_teardown_order_witness:
  "registration example_env = Reg_primary \<and> \<not> vm_help empty_vm \<and> \<not> vm_new_config empty_vm \<and>
   fst (main (Parsed empty_vm) example_env) = Exit 0 \<and>
   with_plugins example_env \<and>
   inits (trace (snd (main (Parsed empty_vm) example_env))) =
     [Date, Utils, Db, Keybindings, SavedSearches, AccountManager, PluginManager,
      ActionManager, Poll] \<and>
   teardowns (trace (snd (main (Parsed empty_vm) example_env))) =
     [ActionManager, SavedSearches, PluginManager]"
proof -
  have h: "registration example_env = Reg_primary" "\<not> vm_help empty_vm"
    "\<not> vm_new_config empty_vm" "with_plugins example_env"
    by simp_all
  have x: "fst (main (Parsed empty_vm) example_env) = Exit 0"
    by (rule main_example)
  then have m: "main (Parsed empty_vm) example_env =
      (Exit 0, snd (main (Parsed empty_vm) example_env))"
    by (simp add: prod_eq_iff)
  show ?thesis
    using init_and_teardown_order [OF h(1,2,3) m] h x by simp
qed

text \<open>
  The claim as stated, that the teardown is the exact reverse of the set-up, fails on the
  sample run.
\<close>

theorem teardown_not_reverse_counterexample:
  "inits (trace (snd (main (Parsed empty_vm) example_env))) =
     [Date, Utils, Db, Keybindings, SavedSearches, AccountManager, PluginManager,
      ActionManager, Poll] \<and>
   teardowns (trace (snd (main (Parsed empty_vm) example_env))) =
     [ActionManager, SavedSearches, PluginManager] \<and>
   teardowns (trace (snd (main (Parsed empty_vm) example_env))) \<noteq>
     rev [SavedSearches, PluginManager, ActionManager]"
  by (simp add: main_primary main_config_def main_first_window_def
      open_new_window_defaults on_signal_activate_def)

subsection \<open>C3: the first activation\<close>

text \<open>
  C3, as amended. \<open>on_signal_activate\<close> swallows the first activation it receives and
  opens a default window for every later one. A start as the main instance without
  \<open>--mailto\<close>, with a configuration that has the keys read, in which the main loop
  delivers \<open>n\<close> activations and nothing else, \<open>n\<close> at least one, returns 0 and has
  opened \<open>n\<close> default windows: the one \<open>main\<close> opens itself and one for each
  activation after the first. It is exactly one window when exactly one activation
  arrives.
\<close>

theorem activation_windows:
  assumes "registration e = Reg_primary" and "\<not> vm_help vm" and "\<not> vm_new_config vm"
    and "vm_mailto vm = None"
    and "\<not> (vm_config vm \<noteq> None \<and> vm_test_config vm)"
    and "\<forall>src. config_complete (loaded_config e src)"
    and "events e = replicate n Activate_event" and "0 < n"
  shows "fst (main (Parsed vm) e) = Exit 0 \<and>
     new_windows (trace (snd (main (Parsed vm) e))) = [0..<n] \<and>
     default_windows (trace (snd (main (Parsed vm) e))) = [0..<n]"
proof -
  let ?s3 = "emit (Add_action ''mailto'') (emit Connect_activate (emit App_register
      (emit App_create (log_line Debug ''loading gtk..''
         (main_flags vm (main_log vm e astroid0))))))"
  from main_config_ok [OF assms(5,6)] obtain cfg s4
    where c: "main_config vm e ?s3 = Inr (cfg, s4)" and cc: "config_complete cfg"
    by blast
  from cc obtain sos qs where k: "show_on_startup cfg = Some sos" "startup_queries cfg = Some qs"
    by (auto simp: config_complete_def)
  note f4 = main_config_frame [OF c]
  let ?s4 = "main_static vm e cfg s4"
  obtain s5 where w: "main_first_window vm cfg ?s4 = Inr s5"
    and w1: "new_windows (trace s5) = [0]" and w2: "default_windows (trace s5) = [0]"
    and w3: "n_windows s5 = 1" and w4: "\<not> activated s5"
    using assms(4) f4
    by (simp add: main_first_window_def open_new_window_defaults [OF k])
  obtain k' where n: "n = Suc k'" using assms(8) by (cases n) auto
  let ?s6 = "(emit App_run s5)\<lparr>activated := True\<rparr>"
  from app_run_activations [OF k, of ?s6 k'] obtain s7
    where r: "app_run cfg (replicate k' Activate_event) ?s6 = Inr s7"
      and r1: "new_windows (trace s7) = [0] @ [1 ..< 1 + k']"
      and r2: "default_windows (trace s7) = [0] @ [1 ..< 1 + k']"
    using w1 w2 w3 by auto
  have run: "app_run cfg (events e) (emit App_run s5) = Inr s7"
    using r w4 by (simp add: assms(7) n on_signal_activate_def)
  have u: "[0 ..< n] = [0] @ [1 ..< 1 + k']"
    by (simp add: n upt_conv_Cons del: upt_Suc)
  show ?thesis
    using r1 r2
    by (simp add: main_primary [OF assms(2,3,1)] c w run u del: upt_Suc)
qed

text \<open>The sample run, with one activation.\<close>

theorem activation_windows_witness:
  "registration example_env = Reg_primary \<and> \<not> vm_help empty_vm \<and> \<not> vm_new_config empty_vm \<and>
   vm_mailto empty_vm = None \<and> \<not> (vm_config empty_vm \<noteq> None \<and> vm_test_config empty_vm) \<and>
   (\<forall>src. config_complete (loaded_config example_env src)) \<and>
   events example_env = replicate 1 Activate_event \<and> (0::nat) < 1 \<and>
   fst (main (Parsed empty_vm) example_env) = Exit 0 \<and>
   new_windows (trace (snd (main (Parsed empty_vm) example_env))) = [0] \<and>
   default_windows (trace (snd (main (Parsed empty_vm) example_env))) = [0]"
proof -
  have h: "registration example_env = Reg_primary" "\<not> vm_help empty_vm"
    "\<not> vm_new_config empty_vm" "vm_mailto empty_vm = None"
    "\<not> (vm_config empty_vm \<noteq> None \<and> vm_test_config empty_vm)"
    "\<forall>src. config_complete (loaded_config example_env src)"
    "events example_env = replicate 1 Activate_event" "(0::nat) < 1"
    by (simp_all add: config_complete_def)
  show ?thesis
    using activation_windows [OF h] h by simp
qed

text \<open>
  The claim as stated, one default window however many activations arrive, fails with two
  activations: two default windows are opened.
\<close>

theorem second_activation_counterexample:
  "new_windows (trace (snd (main (Parsed empty_vm)
      (example_env\<lparr>events := [Activate_event, Activate_event]\<rparr>)))) = [0, 1] \<and>
   default_windows (trace (snd (main (Parsed empty_vm)
      (example_env\<lparr>events := [Activate_event, Activate_event]\<rparr>)))) = [0, 1]"
  by (simp add: main_primary main_config_def main_first_window_def
      open_new_window_defaults on_signal_activate_def)

subsection \<open>C4: forwarding a mailto to the running instance\<close>

text \<open>
  What holds for every text: an invocation with \<open>--mailto raw\<close> that reaches the
  registration and finds the application registered by another process returns 0,
  forwards exactly one request, the action \<open>mailto\<close> with the text as given, opens no
  window and sets up no subsystem.
\<close>

lemma main_remote_mailto:
  assumes "vm_mailto vm = Some raw" and "\<not> vm_help vm" and "\<not> vm_new_config vm"
    and "registration e = Reg_remote"
  shows "fst (main (Parsed vm) e) = Exit 0"
    and "forwards (trace (snd (main (Parsed vm) e))) = [App_activate_action ''mailto'' raw]"
    and "new_windows (trace (snd (main (Parsed vm) e))) = []"
    and "inits (trace (snd (main (Parsed vm) e))) = []"
  using assms by (simp_all add: main_remote)

text \<open>
  C4. The claim is that the main instance, on receipt of the
  forwarded text, opens one window with one compose view addressed to the decoded
  recipient. For \<open>--mailto mailto:foo@bar.com\<close> the forwarding is as claimed (status 0,
  one action \<open>mailto\<close> with the raw text, no window), and the main instance opens one
  window with one compose view; but the view is addressed to \<open>:foo@bar.com\<close>, where
  the decoder of the specification gives \<open>foo@bar.com\<close>. The defect is the one
  of the first claim: the colon of the scheme is not cut off.
\<close>

theorem forwarded_mailto_keeps_colon:
  "fst (main (Parsed (empty_vm\<lparr>vm_mailto := Some ''mailto:foo@bar.com''\<rparr>))
          (example_env\<lparr>registration := Reg_remote\<rparr>)) = Exit 0 \<and>
   forwards (trace (snd (main (Parsed (empty_vm\<lparr>vm_mailto := Some ''mailto:foo@bar.com''\<rparr>))
          (example_env\<lparr>registration := Reg_remote\<rparr>)))) =
     [App_activate_action ''mailto'' ''mailto:foo@bar.com''] \<and>
   new_windows (trace (snd (main (Parsed (empty_vm\<lparr>vm_mailto := Some ''mailto:foo@bar.com''\<rparr>))
          (example_env\<lparr>registration := Reg_remote\<rparr>)))) = [] \<and>
   on_mailto_activate example_config ''mailto:foo@bar.com'' astroid0 =
     Inr (astroid0\<lparr>trace :=
            [Log Warn ''astroid: starting a new window..'', New_window 0,
             App_add_window 0, Show_all 0,
             Log Info ''astorid: mailto: mailto:foo@bar.com'',
             Add_mode 0 (new_mode (EditMessage '':foo@bar.com''))],
          n_windows := 1\<rparr>) \<and>
   spec_decode ''mailto:foo@bar.com'' = ''foo@bar.com''"
proof -
  have s: "uri_parse_scheme ''mailto:foo@bar.com'' = ''mailto''"
    by (simp add: uri_parse_scheme_def g_ascii_isalpha_def g_ascii_isdigit_def scheme_char_def)
  have d: "spec_decode ''mailto:foo@bar.com'' = ''foo@bar.com''"
    by (simp add: spec_decode_def s)
  have t: "mailto_to ''mailto:foo@bar.com'' = Inr '':foo@bar.com''"
    by (simp add: mailto_to_spec_decode s d)
  show ?thesis
    by (simp add: main_remote on_mailto_activate_eq t d empty_vm_def astroid0_def)
qed

subsection \<open>C5: \<open>--config\<close> with \<open>--test-config\<close>\<close>

text \<open>
  C5, as amended. An invocation that combines \<open>--config\<close> with \<open>--test-config\<close> never
  sets up a subsystem and never opens a window. When it does not ask for help and becomes
  the main instance, it exits with status 1. The two flags are compared only after the
  registration: when another process owns the application (and \<open>--new-config\<close> is not
  given) the invocation forwards its request and returns 0.
\<close>

theorem config_with_test_config:
  assumes "vm_config vm = Some c" and "vm_test_config vm"
  shows "inits (trace (snd (main (Parsed vm) e))) = [] \<and>
     new_windows (trace (snd (main (Parsed vm) e))) = [] \<and>
     (\<not> vm_help vm \<and> registration e = Reg_primary \<longrightarrow> fst (main (Parsed vm) e) = Exit 1) \<and>
     (\<not> vm_help vm \<and> \<not> vm_new_config vm \<and> registration e = Reg_remote \<longrightarrow>
        fst (main (Parsed vm) e) = Exit 0 \<and>
        forwards (trace (snd (main (Parsed vm) e))) =
          [case vm_mailto vm of
             Some mailtourl \<Rightarrow> App_activate_action ''mailto'' mailtourl
           | None \<Rightarrow> App_activate])"
proof (cases "vm_help vm")
  case True
  then show ?thesis by (simp add: main_help)
next
  case nohelp: False
  show ?thesis
  proof (cases "vm_new_config vm")
    case True
    then show ?thesis
      using nohelp assms by (simp add: main_new_config_test)
  next
    case nonew: False
    show ?thesis
    proof (cases "registration e")
      case Reg_failed
      then show ?thesis using nohelp nonew by (simp add: main_failed)
    next
      case Reg_remote
      then show ?thesis using nohelp nonew by (simp add: main_remote split: option.split)
    next
      case Reg_primary
      then show ?thesis
        using nohelp nonew assms by (simp add: main_primary main_config_conflict)
    qed
  qed
qed

text \<open>The sample environment, where the process becomes the main instance.\<close>

theorem config_with_test_config_witness:
  "vm_config (empty_vm\<lparr>vm_config := Some ''/tmp/c'', vm_test_config := True\<rparr>) = Some ''/tmp/c'' \<and>
   vm_test_config (empty_vm\<lparr>vm_config := Some ''/tmp/c'', vm_test_config := True\<rparr>) \<and>
   \<not> vm_help (empty_vm\<lparr>vm_config := Some ''/tmp/c'', vm_test_config := True\<rparr>) \<and>
   \<not> vm_new_config (empty_vm\<lparr>vm_config := Some ''/tmp/c'', vm_test_config := True\<rparr>) \<and>
   registration example_env = Reg_primary \<and>
   fst (main (Parsed (empty_vm\<lparr>vm_config := Some ''/tmp/c'', vm_test_config := True\<rparr>))
     example_env) = Exit 1 \<and>
   inits (trace (snd (main
     (Parsed (empty_vm\<lparr>vm_config := Some ''/tmp/c'', vm_test_config := True\<rparr>))
     example_env))) = [] \<and>
   registration (example_env\<lparr>registration := Reg_remote\<rparr>) = Reg_remote \<and>
   forwards (trace (snd (main
     (Parsed (empty_vm\<lparr>vm_config := Some ''/tmp/c'', vm_test_config := True\<rparr>))
     (example_env\<lparr>registration := Reg_remote\<rparr>)))) = [App_activate] \<and>
   inits (trace (snd (main
     (Parsed (empty_vm\<lparr>vm_config := Some ''/tmp/c'', vm_test_config := True\<rparr>))
     (example_env\<lparr>registration := Reg_remote\<rparr>)))) = []"
  using config_with_test_config
      [where vm = "empty_vm\<lparr>vm_config := Some ''/tmp/c'', vm_test_config := True\<rparr>"
        and c = "''/tmp/c''" and e = example_env]
    config_with_test_config
      [where vm = "empty_vm\<lparr>vm_config := Some ''/tmp/c'', vm_test_config := True\<rparr>"
        and c = "''/tmp/c''" and e = "example_env\<lparr>registration := Reg_remote\<rparr>"]
  by (simp add: empty_vm_def)

text \<open>
  The claim as stated, status 1 for every such invocation, fails when an instance is
  already running: the status is 0.
\<close>

theorem config_with_test_config_remote_counterexample:
  "fst (main (Parsed (empty_vm\<lparr>vm_config := Some ''/tmp/c'', vm_test_config := True\<rparr>))
     (example_env\<lparr>registration := Reg_remote\<rparr>)) = Exit 0"
  by (simp add: main_remote empty_vm_def)

subsection \<open>C6: a registration that fails\<close>

text \<open>
  C6, as amended. When the registration fails, \<open>main\<close> goes no further, neither as the
  main instance nor as a forwarding one: the exception of \<open>register_application\<close> leaves
  \<open>main\<close>, which has no handler for it. The call of the registration is the last thing
  \<open>main\<close> does: it writes nothing to the log after it, forwards nothing, sets up no
  subsystem, opens no window, and it does not call \<open>exit (1)\<close>.
\<close>

theorem registration_failure_propagates:
  assumes "registration e = Reg_failed" and "\<not> vm_help vm" and "\<not> vm_new_config vm"
  shows "fst (main (Parsed vm) e) = Throw Registration_error \<and>
     last (trace (snd (main (Parsed vm) e))) = App_register \<and>
     forwards (trace (snd (main (Parsed vm) e))) = [] \<and>
     inits (trace (snd (main (Parsed vm) e))) = [] \<and>
     new_windows (trace (snd (main (Parsed vm) e))) = []"
  using assms by (simp add: main_failed)

text \<open>The sample environment with a registration that fails.\<close>

theorem registration_failure_propagates_witness:
  "registration (example_env\<lparr>registration := Reg_failed\<rparr>) = Reg_failed \<and>
   \<not> vm_help empty_vm \<and> \<not> vm_new_config empty_vm \<and>
   fst (main (Parsed empty_vm) (example_env\<lparr>registration := Reg_failed\<rparr>)) =
     Throw Registration_error \<and>
   last (trace (snd (main (Parsed empty_vm) (example_env\<lparr>registration := Reg_failed\<rparr>)))) =
     App_register"
  using registration_failure_propagates [where vm = empty_vm and e = "example_env\<lparr>registration := Reg_failed\<rparr>"]
  by (simp add: empty_vm_def)

text \<open>
  The claim as stated, an error is reported and the status is 1, fails: \<open>main\<close> ends
  with the exception and has logged no error.
\<close>

theorem registration_failure_counterexample:
  "fst (main (Parsed empty_vm) (example_env\<lparr>registration := Reg_failed\<rparr>)) =
     Throw Registration_error \<and>
   fst (main (Parsed empty_vm) (example_env\<lparr>registration := Reg_failed\<rparr>)) \<noteq> Exit 1 \<and>
   errors_logged (trace (snd (main (Parsed empty_vm)
     (example_env\<lparr>registration := Reg_failed\<rparr>)))) = []"
  by (simp add: main_failed main_log_def main_flags_def)

subsection \<open>C7: the default window\<close>

text \<open>
  C7. With a configuration that has the two keys, \<open>open_new_window\<close> with the defaults
  returns a new window, and the calls on that window are, in this order: its creation;
  if saved searches show on startup, the addition of a saved-searches mode, invincible;
  the addition of one thread-index mode for each startup query, in the order of the
  configuration, each invincible; \<open>set_active (0)\<close>; the registration with the
  application and \<open>show_all\<close>. The modes added are these and no others, so none when
  saved searches do not show and there is no startup query.
\<close>

theorem open_new_window_defaults_order:
  assumes "show_on_startup cfg = Some sos" and "startup_queries cfg = Some qs"
  shows "case open_new_window cfg True st of
           Inl x \<Rightarrow> False
         | Inr (mw, st') \<Rightarrow>
             mw = n_windows st \<and>
             window_calls mw (trace st') =
               window_calls mw (trace st) @ [New_window mw] @
               (if sos then [Add_mode mw \<lparr>kind = SavedSearchesMode, invincible = True\<rparr>] else []) @
               map (\<lambda>(name, query).
                 Add_mode mw \<lparr>kind = ThreadIndex query name, invincible = True\<rparr>) qs @
               [Set_active mw 0, App_add_window mw, Show_all mw] \<and>
             modes_of mw (trace st') =
               modes_of mw (trace st) @
               (if sos then [\<lparr>kind = SavedSearchesMode, invincible = True\<rparr>] else []) @
               map (\<lambda>(name, query). \<lparr>kind = ThreadIndex query name, invincible = True\<rparr>) qs"
  by (simp add: open_new_window_defaults [OF assms] window_calls_queries modes_of_queries)

text \<open>The sample configuration: saved searches and two queries.\<close>

theorem open_new_window_defaults_order_witness:
  "show_on_startup example_config = Some True \<and>
   startup_queries example_config = Some [(''inbox'', ''tag:inbox''), (''unread'', ''tag:unread'')] \<and>
   (case open_new_window example_config True astroid0 of
      Inl x \<Rightarrow> False
    | Inr (mw, st') \<Rightarrow>
        mw = 0 \<and>
        window_calls mw (trace st') =
          [New_window 0,
           Add_mode 0 \<lparr>kind = SavedSearchesMode, invincible = True\<rparr>,
           Add_mode 0 \<lparr>kind = ThreadIndex ''tag:inbox'' ''inbox'', invincible = True\<rparr>,
           Add_mode 0 \<lparr>kind = ThreadIndex ''tag:unread'' ''unread'', invincible = True\<rparr>,
           Set_active 0 0, App_add_window 0, Show_all 0] \<and>
        modes_of mw (trace st') =
          [\<lparr>kind = SavedSearchesMode, invincible = True\<rparr>,
           \<lparr>kind = ThreadIndex ''tag:inbox'' ''inbox'', invincible = True\<rparr>,
           \<lparr>kind = ThreadIndex ''tag:unread'' ''unread'', invincible = True\<rparr>])"
proof -
  have a: "show_on_startup example_config = Some True"
    by (simp add: example_config_def)
  have b: "startup_queries example_config =
      Some [(''inbox'', ''tag:inbox''), (''unread'', ''tag:unread'')]"
    by (simp add: example_config_def)
  show ?thesis
    using open_new_window_defaults_order [OF a b, of astroid0] a b
    by (simp add: astroid0_def split: sum.splits prod.splits)
qed

subsection \<open>C8: the compose window\<close>

text \<open>
  What holds for every text, configuration and state: both ways of composing, the handler
  of the forwarded action and \<open>main\<close>'s own \<open>--mailto\<close> (lines 273 to 275), create one
  window, register and show it, and add one mode to it, a compose view; \<open>set_active\<close>,
  which only the defaults call, is not called. The address of the view is the one of
  \<open>send_mailto\<close>: the recipient of the specification for a text without a scheme, and
  that recipient behind a colon for a text with one.
\<close>

lemma compose_window_calls:
  "on_mailto_activate cfg url st =
     Inr (st\<lparr>trace := trace st @
            [Log Warn ''astroid: starting a new window..'', New_window (n_windows st),
             App_add_window (n_windows st), Show_all (n_windows st),
             Log Info (''astorid: mailto: '' @ url),
             Add_mode (n_windows st) (new_mode (EditMessage
               (if uri_parse_scheme url = [] then spec_decode url
                else CHR '':'' # spec_decode url)))],
          n_windows := Suc (n_windows st)\<rparr>)"
  "vm_mailto vm = Some url \<Longrightarrow> main_first_window vm cfg st = on_mailto_activate cfg url st"
  by (simp_all add: on_mailto_activate_eq mailto_to_spec_decode main_first_window_mailto)

text \<open>
  C8. The claim is that the window of a compose intent holds
  exactly one mode, a compose view addressed to the recipient, and none of the defaults.
  For \<open>--mailto mailto:foo@bar.com\<close> on the command line of the main instance, with a
  configuration that asks for saved searches and two startup queries, lines 273 to 275
  create one window with one mode and no defaults, as claimed; but the compose view is
  addressed to \<open>:foo@bar.com\<close>, where the recipient of the specification is
  \<open>foo@bar.com\<close>. The defect is the one of the first claim: the colon of the
  scheme is not cut off.
\<close>

theorem compose_window_keeps_colon:
  "main_first_window (empty_vm\<lparr>vm_mailto := Some ''mailto:foo@bar.com''\<rparr>) example_config
       astroid0 =
     Inr (astroid0\<lparr>trace :=
            [Log Warn ''astroid: starting a new window..'', New_window 0,
             App_add_window 0, Show_all 0,
             Log Info ''astorid: mailto: mailto:foo@bar.com'',
             Add_mode 0 (new_mode (EditMessage '':foo@bar.com''))],
          n_windows := 1\<rparr>) \<and>
   spec_decode ''mailto:foo@bar.com'' = ''foo@bar.com'' \<and>
   EditMessage '':foo@bar.com'' \<noteq> EditMessage (spec_decode ''mailto:foo@bar.com'')"
proof -
  have s: "uri_parse_scheme ''mailto:foo@bar.com'' = ''mailto''"
    by (simp add: uri_parse_scheme_def g_ascii_isalpha_def g_ascii_isdigit_def scheme_char_def)
  have d: "spec_decode ''mailto:foo@bar.com'' = ''foo@bar.com''"
    by (simp add: spec_decode_def s)
  have t: "mailto_to ''mailto:foo@bar.com'' = Inr '':foo@bar.com''"
    by (simp add: mailto_to_spec_decode s d)
  have m: "vm_mailto (empty_vm\<lparr>vm_mailto := Some ''mailto:foo@bar.com''\<rparr>) =
      Some ''mailto:foo@bar.com''"
    by simp
  show ?thesis
    by (simp add: main_first_window_mailto [OF m] on_mailto_activate_eq t d astroid0_def)
qed

subsection \<open>C9: \<open>--new-config\<close>\<close>




subsection \<open>C10: help and unknown options\<close>

text \<open>
  C10. When the parser reports an unknown option, \<open>main\<close> prints that, the parser's
  message and the description of the options, and exits with status 0; with \<open>--help\<close>
  it prints the description and exits with status 0. In both cases this is all it does:
  the log is not set up, no configuration is read or written, the application is not
  registered and no subsystem is set up.
\<close>

theorem help_exits_zero:
  "main (Unknown_option what) e =
     (Exit 0, astroid0\<lparr>trace := [Cout ''unknown option'', Cout what, Cout_desc]\<rparr>) \<and>
   (vm_help vm \<longrightarrow> main (Parsed vm) e = (Exit 0, astroid0\<lparr>trace := [Cout_desc]\<rparr>))"
  by (simp add: main_help)

text \<open>\<open>--help\<close> in the sample environment.\<close>

theorem help_exits_zero_witness:
  "vm_help (empty_vm\<lparr>vm_help := True\<rparr>) \<and>
   main (Parsed (empty_vm\<lparr>vm_help := True\<rparr>)) example_env =
     (Exit 0, astroid0\<lparr>trace := [Cout_desc]\<rparr>)"
  using help_exits_zero [where vm = "empty_vm\<lparr>vm_help := True\<rparr>" and e = example_env]
  by simp

end
